theory Spec2Isabelle
  imports Complex_Main "HOL-Library.Sublist"
begin

section \<open>Strings\<close>

text \<open>
  A Python \<open>str\<close> is modelled as a \<open>string\<close>, one \<open>char\<close> per code point; the
  development therefore covers text whose code points are below 256 (ASCII and Latin-1).
  The methods of \<open>str\<close> used by the scripts are written out below.
\<close>

definition lower_char :: "char \<Rightarrow> char" where
  \<comment> \<open>\<open>str.lower\<close> on one code point: A-Z, and the Latin-1 capitals except the
      multiplication sign, move up by 32.\<close>
  "lower_char c =
     (let n = of_char c :: nat
      in if (65 \<le> n \<and> n \<le> 90) \<or> (192 \<le> n \<and> n \<le> 222 \<and> n \<noteq> 215)
         then char_of (n + 32) else c)"

definition lower :: "string \<Rightarrow> string" where
  "lower s = map lower_char s"

definition is_space :: "char \<Rightarrow> bool" where
  \<comment> \<open>\<open>str.isspace\<close> of one code point, which is also what \<open>\s\<close> matches.\<close>
  "is_space c =
     (let n = of_char c :: nat
      in (9 \<le> n \<and> n \<le> 13) \<or> (28 \<le> n \<and> n \<le> 32) \<or> n = 133 \<or> n = 160)"

definition strip :: "string \<Rightarrow> string" where
  \<comment> \<open>\<open>str.strip()\<close>: white space removed at both ends.\<close>
  "strip s = rev (dropWhile is_space (rev (dropWhile is_space s)))"

fun split :: "char \<Rightarrow> string \<Rightarrow> string list" where
  \<comment> \<open>\<open>s.split(sep)\<close> for a separator of one character.\<close>
  "split sep [] = [[]]"
| "split sep (c # cs) =
     (if c = sep then [] # split sep cs
      else (case split sep cs of
              [] \<Rightarrow> [[c]]
            | seg # segs \<Rightarrow> (c # seg) # segs))"

function replace :: "string \<Rightarrow> string \<Rightarrow> string \<Rightarrow> string" where
  \<comment> \<open>\<open>s.replace(old, new)\<close>: the occurrences of \<open>old\<close> are found from the left,
      without overlap, in one pass; the text put in is not scanned again.\<close>
  "replace old new [] = (if old = [] then new else [])"
| "replace old new (c # cs) =
     (if old = [] then new @ c # replace old new cs
      else if prefix old (c # cs) then new @ replace old new (drop (length old) (c # cs))
      else c # replace old new cs)"
  by pat_completeness auto
termination
  by (relation "measure (\<lambda>(old, new, s). length s)") auto

function collapse_ws :: "string \<Rightarrow> string" where
  \<comment> \<open>\<open>re.sub(r'\s+', ' ', s)\<close>: every maximal run of white space becomes one space.\<close>
  "collapse_ws [] = []"
| "collapse_ws (c # cs) =
     (if is_space c then CHR '' '' # collapse_ws (dropWhile is_space cs)
      else c # collapse_ws cs)"
  by pat_completeness auto
termination
  by (relation "measure length") (auto simp: less_Suc_eq_le length_dropWhile_le)

section \<open>The sequence matcher of the standard library\<close>

text \<open>
  All three scripts score two strings with \<open>SequenceMatcher(None, a, b).ratio()\<close> of
  Python's \<open>difflib\<close> (\<open>Lib/difflib.py\<close> of CPython). The library is transcribed here
  as the scripts use it: no junk predicate, and the automatic junk heuristic left on,
  under which an element of a \<open>b\<close> of 200 or more elements that occurs more than
  \<open>len(b) // 100 + 1\<close> times starts no match. The dictionary \<open>j2len\<close> is a map;
  indices are natural numbers, so the lookup at \<open>j - 1\<close> is written out for \<open>j = 0\<close>,
  where Python finds no key \<open>-1\<close>.
\<close>

definition bpopular :: "'a list \<Rightarrow> 'a \<Rightarrow> bool" where
  "bpopular b elt = (200 \<le> length b \<and> length b div 100 + 1 < count_list b elt)"

definition b2j :: "'a list \<Rightarrow> 'a \<Rightarrow> nat list" where
  \<comment> \<open>The indices of \<open>b\<close> at which an element occurs, ascending; none for a popular one.\<close>
  "b2j b elt = (if bpopular b elt then [] else filter (\<lambda>j. b ! j = elt) [0..<length b])"

type_synonym best = "nat \<times> nat \<times> nat"

fun scan_row ::
  "nat \<Rightarrow> nat \<Rightarrow> nat \<Rightarrow> (nat \<rightharpoonup> nat) \<Rightarrow> nat list \<Rightarrow> (nat \<rightharpoonup> nat) \<times> best \<Rightarrow> (nat \<rightharpoonup> nat) \<times> best"
where
  \<comment> \<open>The inner loop of \<open>find_longest_match\<close>, over the indices \<open>j\<close> of \<open>b2j[a[i]]\<close>.\<close>
  "scan_row i blo bhi j2len [] st = st"
| "scan_row i blo bhi j2len (j # js) (newj2len, besti, bestj, bestsize) =
     (if j < blo then scan_row i blo bhi j2len js (newj2len, besti, bestj, bestsize)
      else if bhi \<le> j then (newj2len, besti, bestj, bestsize)
      else
        let k = (if j = 0 then 0 else case j2len (j - 1) of None \<Rightarrow> 0 | Some v \<Rightarrow> v) + 1
        in if bestsize < k
           then scan_row i blo bhi j2len js (newj2len(j \<mapsto> k), i + 1 - k, j + 1 - k, k)
           else scan_row i blo bhi j2len js (newj2len(j \<mapsto> k), besti, bestj, bestsize))"

fun scan_rows ::
  "'a list \<Rightarrow> 'a list \<Rightarrow> nat \<Rightarrow> nat \<Rightarrow> nat list \<Rightarrow> (nat \<rightharpoonup> nat) \<times> best \<Rightarrow> (nat \<rightharpoonup> nat) \<times> best"
where
  \<comment> \<open>The outer loop, over \<open>i\<close> in \<open>range(alo, ahi)\<close>.\<close>
  "scan_rows a b blo bhi [] st = st"
| "scan_rows a b blo bhi (i # is) (j2len, bst) =
     scan_rows a b blo bhi is (scan_row i blo bhi j2len (b2j b (a ! i)) (Map.empty, bst))"

function extend_left :: "'a list \<Rightarrow> 'a list \<Rightarrow> nat \<Rightarrow> nat \<Rightarrow> best \<Rightarrow> best" where
  "extend_left a b alo blo (besti, bestj, bestsize) =
     (if alo < besti \<and> blo < bestj \<and> a ! (besti - 1) = b ! (bestj - 1)
      then extend_left a b alo blo (besti - 1, bestj - 1, bestsize + 1)
      else (besti, bestj, bestsize))"
  by pat_completeness auto
termination
  by (relation "measure (\<lambda>(a, b, alo, blo, besti, bestj, bestsize). besti)") auto

function extend_right :: "'a list \<Rightarrow> 'a list \<Rightarrow> nat \<Rightarrow> nat \<Rightarrow> best \<Rightarrow> best" where
  "extend_right a b ahi bhi (besti, bestj, bestsize) =
     (if besti + bestsize < ahi \<and> bestj + bestsize < bhi
         \<and> a ! (besti + bestsize) = b ! (bestj + bestsize)
      then extend_right a b ahi bhi (besti, bestj, bestsize + 1)
      else (besti, bestj, bestsize))"
  by pat_completeness auto
termination
  by (relation "measure (\<lambda>(a, b, ahi, bhi, besti, bestj, bestsize). ahi - (besti + bestsize))")
     auto

definition find_longest_match :: "'a list \<Rightarrow> 'a list \<Rightarrow> nat \<Rightarrow> nat \<Rightarrow> nat \<Rightarrow> nat \<Rightarrow> best" where
  \<comment> \<open>The two further loops of the library extend the match over junk elements only;
      no element is junk here, so they never run.\<close>
  "find_longest_match a b alo ahi blo bhi =
     extend_right a b ahi bhi
       (extend_left a b alo blo
          (snd (scan_rows a b blo bhi [alo..<ahi] (Map.empty, alo, blo, 0))))"

text \<open>
  Where the match found lies: inside both ranges. The recursion over the remaining
  ranges terminates because of it.
\<close>

lemma scan_row_bounds:
  assumes "\<forall>j v. j2len j = Some v \<longrightarrow> v \<le> i - alo \<and> blo \<le> j \<and> v \<le> j + 1 - blo"
    and "\<forall>j v. newj2len j = Some v \<longrightarrow> v \<le> i + 1 - alo \<and> blo \<le> j \<and> v \<le> j + 1 - blo"
    and "alo \<le> i"
    and "alo \<le> besti" and "blo \<le> bestj"
    and "bestsize = 0 \<longrightarrow> besti = alo \<and> bestj = blo"
    and "0 < bestsize \<longrightarrow> besti + bestsize \<le> i + 1 \<and> bestj + bestsize \<le> bhi"
    and "scan_row i blo bhi j2len js (newj2len, besti, bestj, bestsize) = (m, bi, bj, bs)"
  shows "(\<forall>j v. m j = Some v \<longrightarrow> v \<le> i + 1 - alo \<and> blo \<le> j \<and> v \<le> j + 1 - blo)
         \<and> alo \<le> bi \<and> blo \<le> bj \<and> (bs = 0 \<longrightarrow> bi = alo \<and> bj = blo)
         \<and> (0 < bs \<longrightarrow> bi + bs \<le> i + 1 \<and> bj + bs \<le> bhi)"
  using assms
proof (induction js arbitrary: newj2len besti bestj bestsize)
  case Nil
  then show ?case by simp
next
  case (Cons j js)
  show ?case
  proof (cases "j < blo")
    case True
    with Cons.prems show ?thesis
      by (intro Cons.IH[of newj2len besti bestj bestsize]) simp_all
  next
    case lo: False
    show ?thesis
    proof (cases "bhi \<le> j")
      case True
      with lo Cons.prems show ?thesis by simp
    next
      case hi: False
      define k where "k = (if j = 0 then 0 else case j2len (j - 1) of None \<Rightarrow> 0 | Some v \<Rightarrow> v) + 1"
      have k1: "k \<le> i + 1 - alo"
        using Cons.prems(1,3) by (auto simp: k_def split: option.splits) fastforce
      have k2: "k \<le> j + 1 - blo"
        using Cons.prems(1) lo by (auto simp: k_def split: option.splits) fastforce
      have k0: "0 < k" by (simp add: k_def)
      have new: "\<forall>j' v. (newj2len(j \<mapsto> k)) j' = Some v \<longrightarrow> v \<le> i + 1 - alo \<and> blo \<le> j' \<and> v \<le> j' + 1 - blo"
        using Cons.prems(2) k1 k2 lo by auto
      show ?thesis
      proof (cases "bestsize < k")
        case True
        have eq: "scan_row i blo bhi j2len js (newj2len(j \<mapsto> k), i + 1 - k, j + 1 - k, k) = (m, bi, bj, bs)"
          using Cons.prems(8) lo hi True by (simp add: k_def Let_def)
        show ?thesis
          by (rule Cons.IH[OF Cons.prems(1) new Cons.prems(3) _ _ _ _ eq])
             (use k0 k1 k2 hi lo Cons.prems(3) in auto)
      next
        case False
        have eq: "scan_row i blo bhi j2len js (newj2len(j \<mapsto> k), besti, bestj, bestsize) = (m, bi, bj, bs)"
          using Cons.prems(8) lo hi False by (simp add: k_def Let_def)
        show ?thesis
          by (rule Cons.IH[OF Cons.prems(1) new Cons.prems(3-7) eq])
      qed
    qed
  qed
qed

lemma scan_rows_bounds:
  assumes "\<forall>j v. j2len j = Some v \<longrightarrow> v \<le> m - alo \<and> blo \<le> j \<and> v \<le> j + 1 - blo"
    and "alo \<le> m"
    and "alo \<le> besti" and "blo \<le> bestj"
    and "bestsize = 0 \<longrightarrow> besti = alo \<and> bestj = blo"
    and "0 < bestsize \<longrightarrow> besti + bestsize \<le> m \<and> m \<le> ahi \<and> bestj + bestsize \<le> bhi"
    and "scan_rows a b blo bhi [m..<ahi] (j2len, besti, bestj, bestsize) = (j2len', bi, bj, bs)"
  shows "alo \<le> bi \<and> blo \<le> bj \<and> (bs = 0 \<longrightarrow> bi = alo \<and> bj = blo)
         \<and> (0 < bs \<longrightarrow> bi + bs \<le> ahi \<and> bj + bs \<le> bhi)"
  using assms
proof (induction "ahi - m" arbitrary: m j2len besti bestj bestsize)
  case 0
  then show ?case by auto
next
  case (Suc n)
  then have lt: "m < ahi" by simp
  obtain nm ni nj ns where row:
    "scan_row m blo bhi j2len (b2j b (a ! m)) (Map.empty, besti, bestj, bestsize) = (nm, ni, nj, ns)"
    by (metis prod_cases4)
  have rest: "scan_rows a b blo bhi [Suc m..<ahi] (nm, ni, nj, ns) = (j2len', bi, bj, bs)"
    using Suc.prems(7) lt row by (simp add: upt_conv_Cons)
  have inv: "(\<forall>j v. nm j = Some v \<longrightarrow> v \<le> m + 1 - alo \<and> blo \<le> j \<and> v \<le> j + 1 - blo)
         \<and> alo \<le> ni \<and> blo \<le> nj \<and> (ns = 0 \<longrightarrow> ni = alo \<and> nj = blo)
         \<and> (0 < ns \<longrightarrow> ni + ns \<le> m + 1 \<and> nj + ns \<le> bhi)"
    by (rule scan_row_bounds[OF Suc.prems(1) _ Suc.prems(2,3,4,5) _ row])
       (use Suc.prems(6) in auto)
  show ?case
  proof (rule Suc.hyps(1)[OF _ _ _ _ _ _ _ rest])
    show "n = ahi - Suc m" using Suc.hyps(2) by simp
    show "\<forall>j v. nm j = Some v \<longrightarrow> v \<le> Suc m - alo \<and> blo \<le> j \<and> v \<le> j + 1 - blo"
      using inv by simp
    show "alo \<le> Suc m" using Suc.prems(2) by simp
    show "alo \<le> ni" "blo \<le> nj" "ns = 0 \<longrightarrow> ni = alo \<and> nj = blo" using inv by simp_all
    show "0 < ns \<longrightarrow> ni + ns \<le> Suc m \<and> Suc m \<le> ahi \<and> nj + ns \<le> bhi"
      using inv lt by simp
  qed
qed

lemma extend_left_bounds:
  assumes "extend_left a b alo blo (besti, bestj, bestsize) = (bi, bj, bs)"
    and "alo \<le> besti" and "blo \<le> bestj"
  shows "alo \<le> bi \<and> blo \<le> bj \<and> bi + bs = besti + bestsize \<and> bj + bs = bestj + bestsize
         \<and> bestsize \<le> bs"
  using assms
proof (induction a b alo blo "(besti, bestj, bestsize)" arbitrary: besti bestj bestsize
       rule: extend_left.induct)
  case (1 a b alo blo besti bestj bestsize)
  show ?case
  proof (cases "alo < besti \<and> blo < bestj \<and> a ! (besti - 1) = b ! (bestj - 1)")
    case True
    then have "extend_left a b alo blo (besti - 1, bestj - 1, bestsize + 1) = (bi, bj, bs)"
      using "1.prems"(1) by simp
    moreover have "alo \<le> besti - 1" "blo \<le> bestj - 1" using True by auto
    ultimately have "alo \<le> bi \<and> blo \<le> bj \<and> bi + bs = besti - 1 + (bestsize + 1)
        \<and> bj + bs = bestj - 1 + (bestsize + 1) \<and> bestsize + 1 \<le> bs"
      by (rule "1.hyps"[OF True])
    with True show ?thesis by simp
  next
    case False
    then show ?thesis using "1.prems" by auto
  qed
qed

lemma extend_right_bounds:
  assumes "extend_right a b ahi bhi (besti, bestj, bestsize) = (bi, bj, bs)"
    and "0 < bestsize \<longrightarrow> besti + bestsize \<le> ahi \<and> bestj + bestsize \<le> bhi"
  shows "bi = besti \<and> bj = bestj \<and> (0 < bs \<longrightarrow> bi + bs \<le> ahi \<and> bj + bs \<le> bhi)"
  using assms
proof (induction a b ahi bhi "(besti, bestj, bestsize)" arbitrary: besti bestj bestsize
       rule: extend_right.induct)
  case (1 a b ahi bhi besti bestj bestsize)
  show ?case
  proof (cases "besti + bestsize < ahi \<and> bestj + bestsize < bhi
         \<and> a ! (besti + bestsize) = b ! (bestj + bestsize)")
    case True
    then have "extend_right a b ahi bhi (besti, bestj, bestsize + 1) = (bi, bj, bs)"
      using "1.prems"(1) by simp
    from "1.hyps"[OF True this] True show ?thesis by auto
  next
    case False
    then show ?thesis using "1.prems" by auto
  qed
qed

lemma find_longest_match_bounds:
  assumes "find_longest_match a b alo ahi blo bhi = (i, j, k)"
  shows "alo \<le> i \<and> blo \<le> j \<and> (0 < k \<longrightarrow> i + k \<le> ahi \<and> j + k \<le> bhi)"
proof -
  obtain m si sj sk where scan:
    "scan_rows a b blo bhi [alo..<ahi] (Map.empty, alo, blo, 0) = (m, si, sj, sk)"
    by (metis prod_cases4)
  have s: "alo \<le> si \<and> blo \<le> sj \<and> (sk = 0 \<longrightarrow> si = alo \<and> sj = blo)
         \<and> (0 < sk \<longrightarrow> si + sk \<le> ahi \<and> sj + sk \<le> bhi)"
    by (rule scan_rows_bounds[OF _ _ _ _ _ _ scan]) simp_all
  obtain li lj lk where left: "extend_left a b alo blo (si, sj, sk) = (li, lj, lk)"
    by (metis prod_cases3)
  have l: "alo \<le> li \<and> blo \<le> lj \<and> li + lk = si + sk \<and> lj + lk = sj + sk \<and> sk \<le> lk"
    using extend_left_bounds[OF left] s by simp
  have lk0: "sk = 0 \<Longrightarrow> lk = 0"
    using left s by auto
  have right: "extend_right a b ahi bhi (li, lj, lk) = (i, j, k)"
    using assms scan left by (simp add: find_longest_match_def)
  have "0 < lk \<longrightarrow> li + lk \<le> ahi \<and> lj + lk \<le> bhi"
    using l s lk0 by (cases "sk = 0") auto
  from extend_right_bounds[OF right this] l show ?thesis by blast
qed

text \<open>
  \<open>get_matching_blocks\<close> keeps a work list of ranges still to search; the recursion
  below searches the same ranges and lists the blocks in ascending order, which is the
  order the library sorts them into. The library then merges adjacent blocks and appends
  an empty sentinel; neither changes the sum of the sizes, which is all \<open>ratio\<close> reads.
\<close>

function matching_blocks :: "'a list \<Rightarrow> 'a list \<Rightarrow> nat \<Rightarrow> nat \<Rightarrow> nat \<Rightarrow> nat \<Rightarrow> best list" where
  "matching_blocks a b alo ahi blo bhi =
     (case find_longest_match a b alo ahi blo bhi of
        (i, j, k) \<Rightarrow>
          if k = 0 then []
          else (if alo < i \<and> blo < j then matching_blocks a b alo i blo j else [])
               @ (i, j, k)
               # (if i + k < ahi \<and> j + k < bhi then matching_blocks a b (i + k) ahi (j + k) bhi
                  else []))"
  by pat_completeness auto
termination
proof (relation "measure (\<lambda>(a, b, alo, ahi, blo, bhi). ahi - alo)", goal_cases)
  case 1
  show ?case by simp
next
  case (2 a b alo ahi blo bhi i y j k)
  then have "find_longest_match a b alo ahi blo bhi = (i, j, k)" by simp
  from find_longest_match_bounds[OF this] 2 show ?case by auto
next
  case (3 a b alo ahi blo bhi i y j k)
  then have "find_longest_match a b alo ahi blo bhi = (i, j, k)" by simp
  from find_longest_match_bounds[OF this] 3 show ?case by auto
qed

definition ratio :: "'a list \<Rightarrow> 'a list \<Rightarrow> rat" where
  \<comment> \<open>\<open>2.0 * matches / length\<close>, and \<open>1.0\<close> for two empty sequences. The quotient is
      kept exact: a comparison of it with 0.5, 0.7, 0.8 or 0.9 has the outcome of the
      floating-point comparison for strings of any length a machine can hold.\<close>
  "ratio a b =
     (let matches = sum_list (map (\<lambda>(i, j, k). k) (matching_blocks a b 0 (length a) 0 (length b)));
          total = length a + length b
      in if total \<noteq> 0 then 2 * of_nat matches / of_nat total else 1)"

section \<open>Scoring\<close>

definition similarity :: "string \<Rightarrow> string \<Rightarrow> rat" where
  \<comment> \<open>The same function in \<open>scrape_google_maps_parallel.py\<close>, \<open>scrape_google_maps.py\<close>
      and \<open>merge_google_data.py\<close>.\<close>
  "similarity a b = (if a = [] \<or> b = [] then 0 else ratio (lower a) (lower b))"

definition replacements :: "(string \<times> string) list" where
  "replacements =
     [(''street'', ''st''), (''avenue'', ''ave''), (''boulevard'', ''blvd''), (''road'', ''rd''),
      (''drive'', ''dr''), (''place'', ''pl''), (''court'', ''ct''), (''lane'', ''ln''),
      (''  '', '' '')]"

definition normalize_address :: "string \<Rightarrow> string" where
  \<comment> \<open>\<open>merge_google_data.py\<close>.\<close>
  "normalize_address addr =
     (if addr = [] then []
      else
        let addr1 = lower addr;
            addr2 = (if CHR '','' \<in> set addr1 then hd (split CHR '','' addr1) else addr1);
            addr3 = foldl (\<lambda>s (old, new). replace old new s) addr2 replacements
        in strip addr3)"

definition address_similarity :: "string \<Rightarrow> string \<Rightarrow> rat" where
  "address_similarity addr1 addr2 = similarity (normalize_address addr1) (normalize_address addr2)"

section \<open>Records of the scrapers\<close>

text \<open>
  The dictionaries of the scripts become records. A key that is absent and a key that
  holds \<open>None\<close> are both \<open>None\<close>; no code path of the scripts tells them apart.
  A restaurant has the four keys the scrapers read, with the strings that
  \<open>preprocess_data.py\<close> writes under them.
\<close>

record restaurant =
  name :: string
  address :: string
  category :: string
  boro :: string

record place_info =
  found :: bool
  google_name :: "string option"
  google_address :: "string option"
  google_category :: "string option"
  google_rating :: "rat option"
  google_reviews :: "int option"
  google_url :: "string option"
  error :: "string option"

text \<open>
  \<open>result.update(info)\<close> copies every key of \<open>info\<close> into the result, so a result is a
  \<open>place_info\<close> with further fields. The two similarity fields hold the scores; the
  scripts store them rounded to two decimals (a floating-point operation, not modelled),
  and compute the verdict from the scores before rounding.
\<close>

record scrape_result = place_info +
  original_name :: string
  original_address :: string
  original_category :: string
  original_boro :: string
  search_query :: string
  scraped_at :: string
  name_similarity :: "rat option"
  address_similarity :: "rat option"
  confident_match :: "bool option"

record progress =
  scraped_ids :: "string list"
  results :: "scrape_result list"
  failed :: "scrape_result list"
  last_updated :: "string option"

text \<open>
  What the browser gives for one task, seen from \<open>scrape_restaurant\<close>: an exception
  raised inside its \<open>try\<close> block (by \<open>page.goto\<close>: a timeout, a failed navigation, a
  closed page), carried as its text, or the dictionary that \<open>extract_place_info\<close>
  returns. Reading the page is input and output and is not modelled further.
\<close>

datatype page_response = Raises string | Extracted place_info

section \<open>One task\<close>

definition build_search_query :: "restaurant \<Rightarrow> string" where
  "build_search_query restaurant =
     ''\"'' @ strip (collapse_ws (name restaurant)) @ ''\" '' @ address restaurant
       @ '' '' @ boro restaurant @ '' NYC''"

definition initial_result :: "restaurant \<Rightarrow> string \<Rightarrow> scrape_result" where
  \<comment> \<open>The dictionary \<open>result\<close> before the \<open>try\<close> block; \<open>now\<close> is the clock reading.\<close>
  "initial_result restaurant now =
     \<lparr>found = False, google_name = None, google_address = None, google_category = None,
      google_rating = None, google_reviews = None, google_url = None, error = None,
      original_name = name restaurant, original_address = address restaurant,
      original_category = category restaurant, original_boro = boro restaurant,
      search_query = build_search_query restaurant, scraped_at = now,
      name_similarity = None, address_similarity = None, confident_match = None\<rparr>"

definition update_result :: "scrape_result \<Rightarrow> place_info \<Rightarrow> scrape_result" where
  \<comment> \<open>\<open>result.update(info)\<close>.\<close>
  "update_result result info =
     result\<lparr>found := found info, google_name := google_name info,
            google_address := google_address info, google_category := google_category info,
            google_rating := google_rating info, google_reviews := google_reviews info,
            google_url := google_url info,
            error := (case error info of None \<Rightarrow> error result | Some e \<Rightarrow> Some e)\<rparr>"

definition truthy :: "string option \<Rightarrow> bool" where
  \<comment> \<open>The truth value Python gives an optional string: neither \<open>None\<close> nor empty.\<close>
  "truthy s = (case s of None \<Rightarrow> False | Some t \<Rightarrow> t \<noteq> [])"

definition addr_sim_parallel :: "restaurant \<Rightarrow> place_info \<Rightarrow> rat" where
  \<comment> \<open>The variable \<open>addr_sim\<close> of the parallel scraper: 0 unless both addresses are there.
      The addresses are compared as they are; \<open>normalize_address\<close> belongs to the merge
      script.\<close>
  "addr_sim_parallel restaurant info =
     (case google_address info of
        None \<Rightarrow> 0
      | Some google_addr \<Rightarrow>
          if google_addr \<noteq> [] \<and> address restaurant \<noteq> []
          then similarity (address restaurant) google_addr else 0)"

definition confident_parallel :: "rat \<Rightarrow> rat \<Rightarrow> bool" where
  \<comment> \<open>\<open>name_sim > 0.9 or (name_sim > 0.5 and addr_sim > 0.8)\<close>\<close>
  "confident_parallel name_sim addr_sim =
     (9 / 10 < name_sim \<or> (1 / 2 < name_sim \<and> 4 / 5 < addr_sim))"

definition confident_single :: "rat \<Rightarrow> bool" where
  \<comment> \<open>\<open>name_sim > 0.7\<close>\<close>
  "confident_single name_sim = (7 / 10 < name_sim)"

definition scrape_restaurant_parallel ::
  "restaurant \<Rightarrow> page_response \<Rightarrow> string \<Rightarrow> scrape_result" where
  \<comment> \<open>\<open>scrape_restaurant\<close> of \<open>scrape_google_maps_parallel.py\<close>.\<close>
  "scrape_restaurant_parallel restaurant resp now =
     (let result = initial_result restaurant now
      in case resp of
           Raises e \<Rightarrow> result\<lparr>found := False, error := Some e\<rparr>
         | Extracted info \<Rightarrow>
             let result = update_result result info
             in case google_name info of
                  None \<Rightarrow> result
                | Some gname \<Rightarrow>
                    if gname = [] then result
                    else
                      let name_sim = similarity (name restaurant) gname;
                          addr_sim = addr_sim_parallel restaurant info
                      in result\<lparr>name_similarity := Some name_sim,
                                address_similarity :=
                                  (if truthy (google_address info) \<and> address restaurant \<noteq> []
                                   then Some addr_sim else None),
                                confident_match := Some (confident_parallel name_sim addr_sim)\<rparr>)"

definition scrape_restaurant_single ::
  "restaurant \<Rightarrow> page_response \<Rightarrow> string \<Rightarrow> scrape_result" where
  \<comment> \<open>\<open>scrape_restaurant\<close> of \<open>scrape_google_maps.py\<close>.\<close>
  "scrape_restaurant_single restaurant resp now =
     (let result = initial_result restaurant now
      in case resp of
           Raises e \<Rightarrow> result\<lparr>found := False, error := Some e\<rparr>
         | Extracted info \<Rightarrow>
             let result = update_result result info
             in case google_name info of
                  None \<Rightarrow> result
                | Some gname \<Rightarrow>
                    if gname = [] then result
                    else
                      let name_sim = similarity (name restaurant) gname
                      in result\<lparr>name_similarity := Some name_sim,
                                confident_match := Some (confident_single name_sim)\<rparr>)"

section \<open>Progress and the worker\<close>

definition restaurant_id :: "restaurant \<Rightarrow> string" where
  "restaurant_id restaurant = name restaurant @ ''|'' @ address restaurant"

definition empty_progress :: progress where
  "empty_progress = \<lparr>scraped_ids = [], results = [], failed = [], last_updated = None\<rparr>"

definition record_result :: "restaurant \<Rightarrow> scrape_result \<Rightarrow> progress \<Rightarrow> progress" where
  \<comment> \<open>The recording step, the same in the worker of the parallel scraper (under
      \<open>progress_lock\<close>) and in the loop of the single-stream scraper.\<close>
  "record_result restaurant result progress_data =
     (let p = progress_data\<lparr>scraped_ids := scraped_ids progress_data @ [restaurant_id restaurant]\<rparr>
      in if found result then p\<lparr>results := results p @ [result]\<rparr>
         else p\<lparr>failed := failed p @ [result]\<rparr>)"

text \<open>
  A worker takes tasks until \<open>queue.get_nowait()\<close> finds the queue empty. Each entry of
  the list is a task it takes, with the answer of its browser and the clock reading for
  it. The workers are coroutines of one event loop and a recording step holds no
  \<open>await\<close>, so a run of several workers records one outcome after the other, in the
  order the list gives. The progress display (\<open>ProgressTracker\<close>) and the pause between
  tasks do not touch \<open>progress_data\<close> and are left out.
\<close>

fun worker :: "(restaurant \<times> page_response \<times> string) list \<Rightarrow> progress \<Rightarrow> progress" where
  "worker [] progress_data = progress_data"
| "worker ((restaurant, resp, now) # queue) progress_data =
     worker queue
       (record_result restaurant (scrape_restaurant_parallel restaurant resp now) progress_data)"

section \<open>The checkpoint file\<close>

text \<open>
  The progress file is absent, or holds text that \<open>json.load\<close> rejects, or holds the
  JSON text of a progress dictionary. \<open>json.dump\<close> followed by \<open>json.load\<close> gives back
  a dictionary of strings, numbers, booleans, \<open>None\<close> and lists of them unchanged, which
  is all a progress dictionary contains; \<open>Holds\<close> stands for the text written. A file
  with JSON text of another shape, and a write that fails, are outside the model.
\<close>

datatype checkpoint_file = Absent | Unparseable | Holds progress

datatype load_error = JSONDecodeError

definition load_progress :: "checkpoint_file \<Rightarrow> load_error + progress" where
  "load_progress file =
     (case file of
        Absent \<Rightarrow> Inr empty_progress
      | Unparseable \<Rightarrow> Inl JSONDecodeError
      | Holds p \<Rightarrow> Inr p)"

definition save_progress :: "progress \<Rightarrow> string \<Rightarrow> progress \<times> checkpoint_file" where
  \<comment> \<open>The dictionary is stamped in place, then written: the result is the dictionary
      after the call and the file after the call.\<close>
  "save_progress progress_data now =
     (let p = progress_data\<lparr>last_updated := Some now\<rparr> in (p, Holds p))"

section \<open>The run\<close>

definition py_take :: "int \<Rightarrow> 'a list \<Rightarrow> 'a list" where
  \<comment> \<open>The slice \<open>xs[:n]\<close>; a negative \<open>n\<close> counts from the end.\<close>
  "py_take n xs = (if 0 \<le> n then take (nat n) xs else take (length xs - nat (- n)) xs)"

definition initial_progress :: "bool \<Rightarrow> checkpoint_file \<Rightarrow> load_error + progress" where
  \<comment> \<open>\<open>progress_data = load_progress() if resume else {...}\<close>\<close>
  "initial_progress resume file = (if resume then load_progress file else Inr empty_progress)"

definition task_queue :: "restaurant list \<Rightarrow> progress \<Rightarrow> bool \<Rightarrow> int option \<Rightarrow> restaurant list" where
  \<comment> \<open>The list \<open>remaining\<close> of \<open>run_scraper\<close>, which is put on the queue in this order.\<close>
  "task_queue restaurants progress_data prioritize_unspecified sample_size =
     (let scraped_set = set (scraped_ids progress_data);
          remaining = filter (\<lambda>r. restaurant_id r \<notin> scraped_set) restaurants;
          remaining =
            (if prioritize_unspecified
             then filter (\<lambda>r. sublist ''Unspecified'' (category r)) remaining
                  @ filter (\<lambda>r. \<not> sublist ''Unspecified'' (category r)) remaining
             else remaining)
      in case sample_size of
           None \<Rightarrow> remaining
         | Some n \<Rightarrow> if n \<noteq> 0 then py_take n remaining else remaining)"

definition run_scraper ::
  "restaurant list \<Rightarrow> checkpoint_file \<Rightarrow> int option \<Rightarrow> bool \<Rightarrow> bool
     \<Rightarrow> (restaurant \<Rightarrow> page_response \<times> string) \<Rightarrow> string
     \<Rightarrow> load_error + progress \<times> checkpoint_file" where
  \<comment> \<open>\<open>run_scraper\<close> of the parallel scraper, from the restaurants read and the progress
      file found to the progress and the file it leaves. \<open>browse\<close> is what the browser
      and the clock give for a task, \<open>now\<close> the clock at the last save. The saves made
      every 30 seconds are overwritten by the last one.\<close>
  "run_scraper restaurants file sample_size resume prioritize_unspecified browse now =
     (case initial_progress resume file of
        Inl e \<Rightarrow> Inl e
      | Inr progress_data \<Rightarrow>
          let remaining = task_queue restaurants progress_data prioritize_unspecified sample_size
          in if remaining = [] then Inr (progress_data, file)
             else Inr (save_progress (worker (map (\<lambda>r. (r, browse r)) remaining) progress_data)
                         now))"

section \<open>Sample data\<close>

text \<open>Restaurants and pages on which the results below are run.\<close>

definition joes :: restaurant where
  "joes = \<lparr>name = ''Joe's Pizza'', address = ''123 Bleecker St'', category = ''Pizza'',
           boro = ''Manhattan''\<rparr>"

definition joes_page :: place_info where
  "joes_page = \<lparr>found = True, google_name = Some ''Joe's Pizza'',
     google_address = Some ''123 Bleecker Street, New York, NY'',
     google_category = Some ''Pizza restaurant'', google_rating = None, google_reviews = None,
     google_url = Some ''https://www.google.com/maps/place/x'', error = None\<rparr>"

definition luna :: restaurant where
  "luna = \<lparr>name = ''Luna'', address = ''1 Main Street'', category = ''Italian (Unspecified)'',
           boro = ''Queens''\<rparr>"

definition lune_page :: place_info where
  "lune_page = \<lparr>found = True, google_name = Some ''Lune'', google_address = None,
     google_category = None, google_rating = None, google_reviews = None,
     google_url = None, error = None\<rparr>"



section \<open>The similarity score\<close>

lemma matching_blocks_total:
  "sum_list (map (\<lambda>(i, j, k). k) (matching_blocks a b alo ahi blo bhi)) \<le> ahi - alo
   \<and> sum_list (map (\<lambda>(i, j, k). k) (matching_blocks a b alo ahi blo bhi)) \<le> bhi - blo"
proof (induction a b alo ahi blo bhi rule: matching_blocks.induct)
  case (1 a b alo ahi blo bhi)
  obtain i j k where flm: "find_longest_match a b alo ahi blo bhi = (i, j, k)"
    by (metis prod_cases3)
  note bounds = find_longest_match_bounds[OF flm]
  let ?sz = "\<lambda>bs. sum_list (map (\<lambda>(i, j, k). k) bs)"
  let ?L = "if alo < i \<and> blo < j then matching_blocks a b alo i blo j else []"
  let ?R = "if i + k < ahi \<and> j + k < bhi then matching_blocks a b (i + k) ahi (j + k) bhi else []"
  show ?case
  proof (cases "k = 0")
    case True
    then show ?thesis by (subst (1 2) matching_blocks.simps) (simp add: flm)
  next
    case False
    have L: "?sz ?L \<le> i - alo \<and> ?sz ?L \<le> j - blo"
      using "1.IH"(1)[of i "(j, k)" j k] flm False by simp
    have R: "?sz ?R \<le> ahi - (i + k) \<and> ?sz ?R \<le> bhi - (j + k)"
      using "1.IH"(2)[of i "(j, k)" j k] flm False by simp
    have eq: "matching_blocks a b alo ahi blo bhi = ?L @ (i, j, k) # ?R"
      using False by (subst matching_blocks.simps) (simp add: flm)
    have "?sz (matching_blocks a b alo ahi blo bhi) = ?sz ?L + k + ?sz ?R"
      unfolding eq by simp
    with L R bounds False show ?thesis by linarith
  qed
qed

lemma ratio_range: "0 \<le> ratio a b \<and> ratio a b \<le> 1"
proof -
  let ?m = "sum_list (map (\<lambda>(i, j, k). k) (matching_blocks a b 0 (length a) 0 (length b)))"
  have "?m \<le> length a" "?m \<le> length b"
    using matching_blocks_total[of a b 0 "length a" 0 "length b"] by simp_all
  then have "2 * ?m \<le> length a + length b" by simp
  then have "(2 * of_nat ?m :: rat) \<le> of_nat (length a + length b)"
    by (metis of_nat_le_iff of_nat_mult of_nat_numeral)
  then show ?thesis
    by (simp add: ratio_def Let_def divide_le_eq_1 del: of_nat_add)
qed

lemma lower_char_idem: "lower_char (lower_char c) = lower_char c"
  by (auto simp: lower_char_def Let_def)

lemma lower_idem: "lower (lower s) = lower s"
  by (simp add: lower_def lower_char_idem)

lemma lower_Nil_iff: "lower s = [] \<longleftrightarrow> s = []"
  by (simp add: lower_def)

text \<open>
  Claim C10. \<open>similarity\<close> is 0 as soon as one argument is empty, so two empty strings
  score 0 and not 1; for two non-empty strings it is the ratio of the sequence matcher
  on the lower-cased strings, it does not depend on the case of its arguments, and it
  always lies between 0 and 1.
\<close>

theorem similarity_contract:
  "(a = [] \<or> b = [] \<longrightarrow> similarity a b = 0)
   \<and> similarity [] [] = 0
   \<and> (a \<noteq> [] \<and> b \<noteq> [] \<longrightarrow> similarity a b = ratio (lower a) (lower b))
   \<and> similarity (lower a) (lower b) = similarity a b
   \<and> 0 \<le> similarity a b \<and> similarity a b \<le> 1"
  using ratio_range[of "lower a" "lower b"]
  by (simp add: similarity_def lower_idem lower_Nil_iff)

text \<open>The contract at \<open>Abcd\<close> against the empty string and against \<open>abcX\<close>.\<close>

theorem similarity_contract_witness:
  "similarity ''Abcd'' [] = 0
   \<and> similarity ''Abcd'' ''abcX'' = ratio ''abcd'' ''abcx''
   \<and> similarity ''Abcd'' ''abcX'' = 3 / 4"
proof -
  have "lower ''Abcd'' = ''abcd''" "lower ''abcX'' = ''abcx''" by code_simp+
  moreover have "ratio ''abcd'' ''abcx'' = 3 / 4" by code_simp
  ultimately show ?thesis
    using similarity_contract[of "''Abcd''" "''abcX''"] similarity_contract[of "''Abcd''" "[]"]
    by simp
qed

section \<open>The confidence verdict\<close>

lemma scrape_parallel_named:
  assumes "google_name info = Some g" and "g \<noteq> []"
  shows "scrape_restaurant_parallel r (Extracted info) now =
     (update_result (initial_result r now) info)
       \<lparr>name_similarity := Some (similarity (name r) g),
        address_similarity :=
          (if truthy (google_address info) \<and> address r \<noteq> []
           then Some (addr_sim_parallel r info) else None),
        confident_match :=
          Some (confident_parallel (similarity (name r) g) (addr_sim_parallel r info))\<rparr>"
  using assms by (simp add: scrape_restaurant_parallel_def Let_def)

lemma scrape_single_named:
  assumes "google_name info = Some g" and "g \<noteq> []"
  shows "scrape_restaurant_single r (Extracted info) now =
     (update_result (initial_result r now) info)
       \<lparr>name_similarity := Some (similarity (name r) g),
        confident_match := Some (confident_single (similarity (name r) g))\<rparr>"
  using assms by (simp add: scrape_restaurant_single_def Let_def)

lemma addr_sim_parallel_missing:
  assumes "\<not> truthy (google_address info) \<or> address r = []"
  shows "addr_sim_parallel r info = 0"
  using assms by (auto simp: addr_sim_parallel_def truthy_def split: option.splits)

text \<open>
  Claim C9. In both rules the verdict is monotone in the name score: with the address
  score fixed, a pair judged confident stays confident when the name score grows.
\<close>

theorem confidence_monotone:
  assumes "n1 \<le> n2"
  shows "(confident_parallel n1 a \<longrightarrow> confident_parallel n2 a)
         \<and> (confident_single n1 \<longrightarrow> confident_single n2)"
  using assms by (auto simp: confident_parallel_def confident_single_def)

text \<open>
  The name score rising from 0.75 to 0.95 at an address score of 0.9.
\<close>

theorem confidence_monotone_witness:
  "(3 / 4 :: rat) \<le> 19 / 20
   \<and> confident_parallel (3 / 4) (9 / 10) \<and> confident_parallel (19 / 20) (9 / 10)
   \<and> confident_single (3 / 4) \<and> confident_single (19 / 20)"
proof -
  have le: "(3 / 4 :: rat) \<le> 19 / 20" by simp
  have "confident_parallel (3 / 4) (9 / 10)" "confident_single (3 / 4)"
    by (simp_all add: confident_parallel_def confident_single_def)
  with le confidence_monotone[OF le, of "9 / 10"] show ?thesis by simp
qed

text \<open>
  Claim C3. Whenever the page gives a name, the parallel scraper judges the match
  confident exactly when the name score exceeds 0.9, or exceeds 0.5 with an address
  score above 0.8, and the single-stream scraper exactly when the name score exceeds
  0.7. Each rule is a fixed expression of its script: the verdict is determined by the
  restaurant and the page alone, and no argument or setting of either script selects
  the rule.
\<close>

theorem confidence_rule:
  assumes "google_name info = Some g" and "g \<noteq> []"
  shows "confident_match (scrape_restaurant_parallel r (Extracted info) now) =
           Some (9 / 10 < similarity (name r) g
                 \<or> (1 / 2 < similarity (name r) g \<and> 4 / 5 < addr_sim_parallel r info))
         \<and> confident_match (scrape_restaurant_single r (Extracted info) now) =
           Some (7 / 10 < similarity (name r) g)"
  by (simp add: scrape_parallel_named[OF assms] scrape_single_named[OF assms]
        confident_parallel_def confident_single_def)

text \<open>
  The two verdicts for Joe's Pizza, found under its own name.
\<close>

theorem confidence_rule_witness:
  "confident_match (scrape_restaurant_parallel joes (Extracted joes_page) ''2025-01-01T00:00:00'') = Some True
   \<and> confident_match (scrape_restaurant_single joes (Extracted joes_page) ''2025-01-01T00:00:00'') = Some True"
proof -
  have g: "google_name joes_page = Some ''Joe's Pizza''" "''Joe's Pizza'' \<noteq> []"
    by (simp_all add: joes_page_def)
  have s: "similarity (name joes) ''Joe's Pizza'' = 1"
    unfolding joes_def by code_simp
  show ?thesis
    using confidence_rule[OF g, of joes "''2025-01-01T00:00:00''"] s by simp
qed

text \<open>
  The two scripts disagree on a name score of 0.75 without an address: the parallel
  scraper, which has no setting for the rule, cannot be made to apply the looser one.
\<close>

theorem confidence_rule_fixed_counterexample:
  "confident_match (scrape_restaurant_parallel luna (Extracted lune_page) ''t'') = Some False
   \<and> confident_match (scrape_restaurant_single luna (Extracted lune_page) ''t'') = Some True"
proof -
  have g: "google_name lune_page = Some ''Lune''" "''Lune'' \<noteq> []"
    by (simp_all add: lune_page_def)
  have s: "similarity (name luna) ''Lune'' = 3 / 4"
    unfolding luna_def by code_simp
  have z: "addr_sim_parallel luna lune_page = 0"
    by (simp add: addr_sim_parallel_def lune_page_def)
  show ?thesis
    by (simp add: scrape_parallel_named[OF g] scrape_single_named[OF g] s z
          confident_parallel_def confident_single_def)
qed

text \<open>
  Claim C8. When the page gives no address, or the restaurant has none, the address
  score that enters the verdict is 0: it is not above 0.8, the verdict is decided by the
  name score alone, and no address score is stored in the result.
\<close>

theorem missing_address_default:
  assumes "\<not> truthy (google_address info) \<or> address r = []"
  shows "addr_sim_parallel r info = 0
         \<and> \<not> 4 / 5 < addr_sim_parallel r info
         \<and> confident_parallel n (addr_sim_parallel r info) = (9 / 10 < n)
         \<and> (truthy (google_name info) \<longrightarrow>
              address_similarity (scrape_restaurant_parallel r (Extracted info) now) = None
              \<and> confident_match (scrape_restaurant_parallel r (Extracted info) now) =
                  Some (9 / 10 < similarity (name r) (the (google_name info))))"
proof -
  have z: "addr_sim_parallel r info = 0"
    by (rule addr_sim_parallel_missing[OF assms])
  have "truthy (google_name info) \<Longrightarrow>
        address_similarity (scrape_restaurant_parallel r (Extracted info) now) = None
        \<and> confident_match (scrape_restaurant_parallel r (Extracted info) now) =
            Some (9 / 10 < similarity (name r) (the (google_name info)))"
  proof -
    assume "truthy (google_name info)"
    then obtain g where g: "google_name info = Some g" "g \<noteq> []"
      by (auto simp: truthy_def split: option.splits)
    show ?thesis
      using assms by (auto simp: scrape_parallel_named[OF g] g z confident_parallel_def)
  qed
  with z show ?thesis by (simp add: confident_parallel_def)
qed

text \<open>
  A page without address: the name score of 0.75 alone does not make the match
  confident.
\<close>

theorem missing_address_default_witness:
  "addr_sim_parallel luna lune_page = 0
   \<and> address_similarity (scrape_restaurant_parallel luna (Extracted lune_page) ''t'') = None
   \<and> confident_match (scrape_restaurant_parallel luna (Extracted lune_page) ''t'') = Some False"
proof -
  have h: "\<not> truthy (google_address lune_page) \<or> address luna = []"
    by (simp add: lune_page_def truthy_def)
  have t: "truthy (google_name lune_page)" "the (google_name lune_page) = ''Lune''"
    by (simp_all add: lune_page_def truthy_def)
  have s: "similarity (name luna) ''Lune'' = 3 / 4"
    unfolding luna_def by code_simp
  show ?thesis
    using missing_address_default[OF h, where now = "''t''"] t s by simp
qed

section \<open>Recording outcomes\<close>


















section \<open>Loading and saving progress\<close>

text \<open>
  Claim C5. With resume requested, a progress file that is absent gives the empty
  progress without any error, a file that cannot be parsed makes the load fail and the
  run end with that error, and a file that holds a progress gives that progress. Without
  resume the file is not read.
\<close>

theorem resume_load:
  "initial_progress True Absent = Inr empty_progress
   \<and> initial_progress True Unparseable = Inl JSONDecodeError
   \<and> run_scraper restaurants Unparseable sample_size True prioritize browse now = Inl JSONDecodeError
   \<and> initial_progress True (Holds p) = Inr p
   \<and> initial_progress False file = Inr empty_progress"
  by (simp add: initial_progress_def load_progress_def run_scraper_def)

text \<open>
  The load at an unreadable file and at a file holding the empty progress.
\<close>

theorem resume_load_witness:
  "initial_progress True Unparseable = Inl JSONDecodeError
   \<and> run_scraper [luna] Unparseable None True True
         (\<lambda>r. (Raises ''Timeout 15000ms exceeded.'', ''t'')) ''u'' = Inl JSONDecodeError
   \<and> initial_progress True (Holds empty_progress) = Inr empty_progress"
  using resume_load[of "[luna]" None True "\<lambda>r. (Raises ''Timeout 15000ms exceeded.'', ''t'')"
          "''u''" empty_progress Absent]
  by simp

text \<open>
  A resumed run that finds no progress file starts from the empty progress and scrapes
  the whole list again, without any error.
\<close>

theorem resume_load_counterexample:
  "initial_progress True Absent = Inr empty_progress
   \<and> run_scraper [luna] Absent None True True (\<lambda>r. (Raises ''Timeout 15000ms exceeded.'', ''t'')) ''u''
       = Inr (save_progress (worker [(luna, Raises ''Timeout 15000ms exceeded.'', ''t'')] empty_progress) ''u'')"
  by (simp add: initial_progress_def load_progress_def run_scraper_def task_queue_def
        empty_progress_def Let_def)



section \<open>The task queue\<close>












section \<open>Normalising addresses\<close>



























end
